theory Spec2Isabelle
  imports Main
begin

section \<open>The UART logger of stm32-uart-logger\<close>

text \<open>
  A shallow embedding of \<^verbatim>\<open>logger.h\<close> and \<^verbatim>\<open>logger_module.h\<close>. Both headers
  consist of one enumeration, one structure, two inline functions and a family of macros.
  The macros read and write the global \<^verbatim>\<open>gLogLevel\<close>, the module instances
  \<^verbatim>\<open>log_inst_<name>\<close> and the UART behind \<^verbatim>\<open>huart1\<close>; the model passes these around
  as one record.
\<close>

subsection \<open>Log levels\<close>

text \<open>
  \<^verbatim>\<open>log_level_t\<close> is a C enumeration. Its constants are the integers below, and a variable
  of the type can hold any other integer as well, so the type is modelled by \<^typ>\<open>int\<close> and
  a level is compared by its ordinal, as \<^verbatim>\<open>>=\<close> does in C.
\<close>

type_synonym log_level_t = int

definition LOG_LEVEL_DEBUG :: log_level_t where "LOG_LEVEL_DEBUG = 0"
definition LOG_LEVEL_INFO :: log_level_t where "LOG_LEVEL_INFO = 1"
definition LOG_LEVEL_WARNING :: log_level_t where "LOG_LEVEL_WARNING = 2"
definition LOG_LEVEL_ERROR :: log_level_t where "LOG_LEVEL_ERROR = 3"
definition LOG_LEVEL_COUNT :: log_level_t where "LOG_LEVEL_COUNT = 4"
definition LOG_LEVEL_OFF :: log_level_t where "LOG_LEVEL_OFF = 99"

lemmas log_level_defs =
  LOG_LEVEL_DEBUG_def LOG_LEVEL_INFO_def LOG_LEVEL_WARNING_def
  LOG_LEVEL_ERROR_def LOG_LEVEL_COUNT_def LOG_LEVEL_OFF_def

subsection \<open>Program state\<close>

text \<open>
  \<^verbatim>\<open>log_instance_t\<close> of \<^verbatim>\<open>logger_module.h\<close>: the name of a module and its level.
\<close>

record log_instance_t =
  name :: string
  level :: log_level_t

text \<open>
  The state the two headers work on:
  \<^item> \<open>gLogLevel\<close> is the global of that name;
  \<^item> \<open>modules\<close> holds the objects \<^verbatim>\<open>log_inst_<name>\<close>, keyed by \<^verbatim>\<open><name>\<close>. A pointer
    to such an object is \<open>Some name\<close>, the null pointer is \<open>None\<close>;
  \<^item> \<open>uart\<close> records the calls of \<^verbatim>\<open>HAL_UART_Transmit\<close> on \<^verbatim>\<open>huart1\<close>, oldest first,
    each with the buffer and the size it was given.
\<close>

record logger_state =
  gLogLevel :: log_level_t
  modules :: "string \<rightharpoonup> log_instance_t"
  uart :: "(char list \<times> nat) list"

text \<open>
  \<^verbatim>\<open>gLogLevel\<close> is a common symbol without initialiser, so it starts as zero, which is
  \<^verbatim>\<open>LOG_LEVEL_DEBUG\<close>.
\<close>

definition initial_state :: logger_state where
  "initial_state = \<lparr>gLogLevel = 0, modules = Map.empty, uart = []\<rparr>"

datatype logger_error = AssertionFailed | InvalidPointer | DuplicateDefinition

subsection \<open>The global level\<close>

text \<open>
  \<^verbatim>\<open>assert(level >= LOG_LEVEL_DEBUG && level < LOG_LEVEL_COUNT); gLogLevel = level;\<close>
  A failed assertion aborts the program: the model returns \<open>Inl AssertionFailed\<close> and no
  state.
\<close>

definition LOGGER_SET_LOGGING_LEVEL :: "log_level_t \<Rightarrow> logger_state \<Rightarrow> logger_error + logger_state" where
  "LOGGER_SET_LOGGING_LEVEL lvl st =
     (if lvl \<ge> LOG_LEVEL_DEBUG \<and> lvl < LOG_LEVEL_COUNT
      then Inr (st\<lparr>gLogLevel := lvl\<rparr>)
      else Inl AssertionFailed)"

text \<open>
  \<^verbatim>\<open>#define CHECK_LOG_LEVEL(severity) ((severity) >= gLogLevel ? 1 : 0)\<close>
\<close>

definition CHECK_LOG_LEVEL :: "logger_state \<Rightarrow> log_level_t \<Rightarrow> int" where
  "CHECK_LOG_LEVEL st severity = (if severity \<ge> gLogLevel st then 1 else 0)"

subsection \<open>Formatted output of the C library\<close>

text \<open>
  \<^verbatim>\<open>snprintf\<close> and \<^verbatim>\<open>strlen\<close> belong to the C library, not to the repository. They are
  modelled as far as the macros use them. A C string ends at its first NUL byte.
\<close>

definition NUL :: char where "NUL = CHR 0x00"

definition cstr :: "string \<Rightarrow> string" where
  "cstr s = takeWhile (\<lambda>c. c \<noteq> NUL) s"

definition strlen :: "char list \<Rightarrow> nat" where
  "strlen s = length (cstr s)"

fun dec_nat :: "nat \<Rightarrow> string" where
  "dec_nat n =
     (if n < 10 then [''0123456789'' ! n]
      else dec_nat (n div 10) @ [''0123456789'' ! (n mod 10)])"

declare dec_nat.simps [simp del]

definition dec_int :: "int \<Rightarrow> string" where
  "dec_int i = (if i < 0 then CHR ''-'' # dec_nat (nat (- i)) else dec_nat (nat i))"

text \<open>
  The variadic arguments of a call, each with the C type it is passed at:
  \<^verbatim>\<open>const char *\<close>, \<^verbatim>\<open>int\<close>, \<^verbatim>\<open>unsigned\<close> and a character.
\<close>

datatype arg = AStr string | AInt int | AUInt nat | AChar char

text \<open>
  One conversion specification: the text it produces and the arguments left. The
  conversions \<^verbatim>\<open>%%\<close>, \<^verbatim>\<open>%s\<close>, \<^verbatim>\<open>%d\<close>, \<^verbatim>\<open>%i\<close>, \<^verbatim>\<open>%u\<close> and \<^verbatim>\<open>%c\<close> are modelled, without
  flags, width or precision. \<open>None\<close> stands for everything else: a missing argument or
  an argument of the wrong type, where the behaviour of C is undefined, and the
  conversions outside the model.
\<close>

definition conversion :: "char \<Rightarrow> arg list \<Rightarrow> (string \<times> arg list) option" where
  "conversion d args =
     (if d = CHR ''%'' then Some (''%'', args)
      else case args of
        [] \<Rightarrow> None
      | a # rest \<Rightarrow>
          (if d = CHR ''s'' then (case a of AStr s \<Rightarrow> Some (cstr s, rest) | _ \<Rightarrow> None)
           else if d = CHR ''d'' \<or> d = CHR ''i'' then
             (case a of AInt i \<Rightarrow> Some (dec_int i, rest) | _ \<Rightarrow> None)
           else if d = CHR ''u'' then (case a of AUInt n \<Rightarrow> Some (dec_nat n, rest) | _ \<Rightarrow> None)
           else if d = CHR ''c'' then (case a of AChar c \<Rightarrow> Some ([c], rest) | _ \<Rightarrow> None)
           else None))"

text \<open>
  The expansion of a format string: the text \<^verbatim>\<open>printf\<close> produces for it, of any length.
  The format is itself a C string and ends at its first NUL byte or at the end of the
  list. Arguments left over are ignored, as in C.
\<close>

fun vformat :: "string \<Rightarrow> arg list \<Rightarrow> string option" where
  "vformat [] args = Some []"
| "vformat (c # fs) args =
     (if c = NUL then Some []
      else if c \<noteq> CHR ''%'' then map_option ((#) c) (vformat fs args)
      else (case fs of
              [] \<Rightarrow> None
            | d # fs' \<Rightarrow>
                (case conversion d args of
                   None \<Rightarrow> None
                 | Some (out, args') \<Rightarrow> map_option ((@) out) (vformat fs' args'))))"

text \<open>
  \<^verbatim>\<open>snprintf(s, n, fmt, ...)\<close> stores at most \<open>n - 1\<close> bytes of the expansion and a
  terminating NUL into \<open>s\<close>, and returns the length of the whole expansion. The model
  returns the bytes stored, from \<open>s[0]\<close> on, with that return value. The bytes of the array
  after the terminator keep their indeterminate contents and are not part of the result.
\<close>

definition snprintf :: "nat \<Rightarrow> string \<Rightarrow> arg list \<Rightarrow> (char list \<times> nat) option" where
  "snprintf n fmt args =
     (case vformat fmt args of
        None \<Rightarrow> None
      | Some out \<Rightarrow> Some (if n = 0 then [] else take (n - 1) out @ [NUL], length out))"

subsection \<open>The UART\<close>

text \<open>
  \<^verbatim>\<open>HAL_UART_Transmit(&huart1, pData, Size, HAL_MAX_DELAY)\<close> belongs to the vendor's HAL.
  The model records the call; the status it returns is dropped by every caller. The bytes
  that leave the UART on a call are the first \<open>Size\<close> bytes of the buffer.
\<close>

definition HAL_UART_Transmit :: "char list \<Rightarrow> nat \<Rightarrow> logger_state \<Rightarrow> logger_state" where
  "HAL_UART_Transmit pData Size st = st\<lparr>uart := uart st @ [(pData, Size)]\<rparr>"

definition transmitted :: "logger_state \<Rightarrow> string list" where
  "transmitted st = map (\<lambda>(pData, Size). take Size pData) (uart st)"

subsection \<open>The logging macros of logger.h\<close>

definition LOG_BUFFER_SIZE :: nat where "LOG_BUFFER_SIZE = 128"

definition KNRM :: string where "KNRM = CHR 0x1B # ''[0m''"
definition KRED :: string where "KRED = CHR 0x1B # ''[31m''"
definition KGRN :: string where "KGRN = CHR 0x1B # ''[32m''"
definition KYEL :: string where "KYEL = CHR 0x1B # ''[33m''"
definition KWHT :: string where "KWHT = CHR 0x1B # ''[37m''"

lemmas color_defs = KNRM_def KRED_def KGRN_def KYEL_def KWHT_def

text \<open>
  Each macro declares \<^verbatim>\<open>char msg[LOG_BUFFER_SIZE]\<close>, fills it with \<^verbatim>\<open>snprintf\<close> and passes
  it to the UART with \<^verbatim>\<open>strlen(msg)\<close>. The parameters \<open>func\<close> and \<open>line\<close> are
  \<^verbatim>\<open>__func__\<close> and \<^verbatim>\<open>__LINE__\<close> at the place of the call; \<open>fmt\<close> and \<open>args\<close> are the
  caller's template and arguments. The format string of a decorated macro is the
  concatenation of adjacent string literals, written with \<open>@\<close>. The result \<open>None\<close> is
  the undefined or unmodelled \<^verbatim>\<open>snprintf\<close> of \<^const>\<open>conversion\<close>.
\<close>

definition LOG_RAW :: "string \<Rightarrow> arg list \<Rightarrow> logger_state \<Rightarrow> logger_state option" where
  "LOG_RAW fmt args st =
     (case snprintf LOG_BUFFER_SIZE fmt args of
        None \<Rightarrow> None
      | Some (msg, _) \<Rightarrow> Some (HAL_UART_Transmit msg (strlen msg) st))"

definition LOG_DEBUG :: "string \<Rightarrow> int \<Rightarrow> string \<Rightarrow> arg list \<Rightarrow> logger_state \<Rightarrow> logger_state option" where
  "LOG_DEBUG func line fmt args st =
     (if CHECK_LOG_LEVEL st LOG_LEVEL_DEBUG \<noteq> 0 then
        (case snprintf LOG_BUFFER_SIZE (KWHT @ ''[DBG][%s:%d]: '' @ fmt @ KNRM)
                (AStr func # AInt line # args) of
           None \<Rightarrow> None
         | Some (msg, _) \<Rightarrow> Some (HAL_UART_Transmit msg (strlen msg) st))
      else Some st)"

definition LOG_INFO :: "string \<Rightarrow> int \<Rightarrow> string \<Rightarrow> arg list \<Rightarrow> logger_state \<Rightarrow> logger_state option" where
  "LOG_INFO func line fmt args st =
     (if CHECK_LOG_LEVEL st LOG_LEVEL_INFO \<noteq> 0 then
        (case snprintf LOG_BUFFER_SIZE (KGRN @ ''[INF][%s:%d]: '' @ KNRM @ fmt)
                (AStr func # AInt line # args) of
           None \<Rightarrow> None
         | Some (msg, _) \<Rightarrow> Some (HAL_UART_Transmit msg (strlen msg) st))
      else Some st)"

definition LOG_WARNING :: "string \<Rightarrow> int \<Rightarrow> string \<Rightarrow> arg list \<Rightarrow> logger_state \<Rightarrow> logger_state option" where
  "LOG_WARNING func line fmt args st =
     (if CHECK_LOG_LEVEL st LOG_LEVEL_WARNING \<noteq> 0 then
        (case snprintf LOG_BUFFER_SIZE (KYEL @ ''[WRN][%s:%d]: '' @ KNRM @ fmt)
                (AStr func # AInt line # args) of
           None \<Rightarrow> None
         | Some (msg, _) \<Rightarrow> Some (HAL_UART_Transmit msg (strlen msg) st))
      else Some st)"

definition LOG_ERROR :: "string \<Rightarrow> int \<Rightarrow> string \<Rightarrow> arg list \<Rightarrow> logger_state \<Rightarrow> logger_state option" where
  "LOG_ERROR func line fmt args st =
     (if CHECK_LOG_LEVEL st LOG_LEVEL_ERROR \<noteq> 0 then
        (case snprintf LOG_BUFFER_SIZE (KRED @ ''[ERR][%s:%d]: '' @ KNRM @ fmt)
                (AStr func # AInt line # args) of
           None \<Rightarrow> None
         | Some (msg, _) \<Rightarrow> Some (HAL_UART_Transmit msg (strlen msg) st))
      else Some st)"

subsection \<open>Module instances of logger_module.h\<close>

text \<open>
  \<^verbatim>\<open>LOG_MODULE_REGISTER(name, level)\<close> defines the object \<^verbatim>\<open>log_inst_<name>\<close> with the
  initialiser \<^verbatim>\<open>{#name, level}\<close> and the constant pointer \<^verbatim>\<open>CURRENT_LOG_MODULE\<close> of the
  translation unit, which the model returns beside the state. A second definition of the
  same object is refused by the compiler or the linker.
\<close>

definition LOG_MODULE_REGISTER ::
  "string \<Rightarrow> log_level_t \<Rightarrow> logger_state \<Rightarrow> logger_error + (logger_state \<times> string option)" where
  "LOG_MODULE_REGISTER nm lvl st =
     (if modules st nm \<noteq> None then Inl DuplicateDefinition
      else Inr (st\<lparr>modules := (modules st)(nm \<mapsto> \<lparr>name = nm, level = lvl\<rparr>)\<rparr>, Some nm))"

text \<open>\<^verbatim>\<open>#define LOG_MODULE_NAME(name) (&log_inst_##name)\<close>\<close>

definition LOG_MODULE_NAME :: "string \<Rightarrow> string option" where
  "LOG_MODULE_NAME nm = Some nm"

text \<open>
  \<^verbatim>\<open>LOG_MODULE_DECLARE(name)\<close> declares the object and defines \<^verbatim>\<open>CURRENT_LOG_MODULE\<close> as
  its address; the result is that pointer. \<^verbatim>\<open>LOG_MODULE_EXTERN(name)\<close> is the declaration
  alone and has no model.
\<close>

definition LOG_MODULE_DECLARE :: "string \<Rightarrow> string option" where
  "LOG_MODULE_DECLARE nm = Some nm"

text \<open>
  \<^verbatim>\<open>if (inst) { inst->level = level; }\<close>
  Writing through a pointer that is not null and points to no object is undefined in C;
  the model makes it the error \<open>InvalidPointer\<close>.
\<close>

definition LOG_MODULE_SET_LEVEL ::
  "string option \<Rightarrow> log_level_t \<Rightarrow> logger_state \<Rightarrow> logger_error + logger_state" where
  "LOG_MODULE_SET_LEVEL inst lvl st =
     (case inst of
        None \<Rightarrow> Inr st
      | Some p \<Rightarrow>
          (case modules st p of
             None \<Rightarrow> Inl InvalidPointer
           | Some m \<Rightarrow> Inr (st\<lparr>modules := (modules st)(p \<mapsto> m\<lparr>level := lvl\<rparr>)\<rparr>)))"

subsection \<open>Calls of the macros\<close>

text \<open>
  A call of one of the five macros, with \<^verbatim>\<open>__func__\<close>, \<^verbatim>\<open>__LINE__\<close>, the template and
  the arguments.
\<close>

datatype log_call =
    Raw string "arg list"
  | Debug string int string "arg list"
  | Info string int string "arg list"
  | Warning string int string "arg list"
  | Error string int string "arg list"

text \<open>
  The expansion of a call in a translation unit whose \<^verbatim>\<open>CURRENT_LOG_MODULE\<close> is \<open>cur\<close>
  (\<open>None\<close> where the unit registers and declares no module). No macro of \<^verbatim>\<open>logger.h\<close>
  mentions \<^verbatim>\<open>CURRENT_LOG_MODULE\<close> or \<^verbatim>\<open>MODULE_REGISTRED\<close>, so \<open>cur\<close> does not occur on
  the right.
\<close>

fun log_call_run :: "string option \<Rightarrow> log_call \<Rightarrow> logger_state \<Rightarrow> logger_state option" where
  "log_call_run cur (Raw fmt args) st = LOG_RAW fmt args st"
| "log_call_run cur (Debug func line fmt args) st = LOG_DEBUG func line fmt args st"
| "log_call_run cur (Info func line fmt args) st = LOG_INFO func line fmt args st"
| "log_call_run cur (Warning func line fmt args) st = LOG_WARNING func line fmt args st"
| "log_call_run cur (Error func line fmt args) st = LOG_ERROR func line fmt args st"

text \<open>A sequence of calls, one after the other.\<close>

fun log_calls_run :: "string option \<Rightarrow> log_call list \<Rightarrow> logger_state \<Rightarrow> logger_state option" where
  "log_calls_run cur [] st = Some st"
| "log_calls_run cur (c # cs) st =
     (case log_call_run cur c st of
        None \<Rightarrow> None
      | Some st' \<Rightarrow> log_calls_run cur cs st')"

text \<open>
  The severity a call is filtered by (none for \<^verbatim>\<open>LOG_RAW\<close>), and the format string and
  the arguments its \<^verbatim>\<open>snprintf\<close> receives, read off the macros above.
\<close>

fun call_severity :: "log_call \<Rightarrow> log_level_t option" where
  "call_severity (Raw fmt args) = None"
| "call_severity (Debug func line fmt args) = Some LOG_LEVEL_DEBUG"
| "call_severity (Info func line fmt args) = Some LOG_LEVEL_INFO"
| "call_severity (Warning func line fmt args) = Some LOG_LEVEL_WARNING"
| "call_severity (Error func line fmt args) = Some LOG_LEVEL_ERROR"

fun call_format :: "log_call \<Rightarrow> string" where
  "call_format (Raw fmt args) = fmt"
| "call_format (Debug func line fmt args) = KWHT @ ''[DBG][%s:%d]: '' @ fmt @ KNRM"
| "call_format (Info func line fmt args) = KGRN @ ''[INF][%s:%d]: '' @ KNRM @ fmt"
| "call_format (Warning func line fmt args) = KYEL @ ''[WRN][%s:%d]: '' @ KNRM @ fmt"
| "call_format (Error func line fmt args) = KRED @ ''[ERR][%s:%d]: '' @ KNRM @ fmt"

fun call_args :: "log_call \<Rightarrow> arg list" where
  "call_args (Raw fmt args) = args"
| "call_args (Debug func line fmt args) = AStr func # AInt line # args"
| "call_args (Info func line fmt args) = AStr func # AInt line # args"
| "call_args (Warning func line fmt args) = AStr func # AInt line # args"
| "call_args (Error func line fmt args) = AStr func # AInt line # args"

definition passes :: "logger_state \<Rightarrow> log_call \<Rightarrow> bool" where
  "passes st c = (case call_severity c of None \<Rightarrow> True | Some s \<Rightarrow> CHECK_LOG_LEVEL st s \<noteq> 0)"

subsection \<open>What the specification describes\<close>

text \<open>
  The payload of a message whose full text is \<open>s\<close>: what fits into a buffer of
  \<^const>\<open>LOG_BUFFER_SIZE\<close> bytes before the terminator, read as a C string.
\<close>

definition payload :: "string \<Rightarrow> string" where
  "payload s = cstr (take (LOG_BUFFER_SIZE - 1) s)"

text \<open>
  The layout of a decorated line in the words of the specification:
  \<^verbatim>\<open><color><TAG>[<func>:<line>]: <reset><user text>\<close>.
\<close>

definition documented_layout :: "string \<Rightarrow> string \<Rightarrow> string \<Rightarrow> int \<Rightarrow> string \<Rightarrow> string" where
  "documented_layout color tag func line text =
     color @ tag @ ''['' @ func @ '':'' @ dec_int line @ '']: '' @ KNRM @ text"

text \<open>
  The line the specification documents for a call: the layout with the colour and the tag
  of the severity (white \<^verbatim>\<open>[DBG]\<close>, green \<^verbatim>\<open>[INF]\<close>, yellow \<^verbatim>\<open>[WRN]\<close>, red \<^verbatim>\<open>[ERR]\<close>), the
  function name read as a C string, and the expansion of the caller's template as the user
  text; for a raw call that expansion alone.
\<close>

fun documented_line :: "log_call \<Rightarrow> string option" where
  "documented_line (Raw fmt args) = vformat fmt args"
| "documented_line (Debug func line fmt args) =
     map_option (documented_layout KWHT ''[DBG]'' (cstr func) line) (vformat fmt args)"
| "documented_line (Info func line fmt args) =
     map_option (documented_layout KGRN ''[INF]'' (cstr func) line) (vformat fmt args)"
| "documented_line (Warning func line fmt args) =
     map_option (documented_layout KYEL ''[WRN]'' (cstr func) line) (vformat fmt args)"
| "documented_line (Error func line fmt args) =
     map_option (documented_layout KRED ''[ERR]'' (cstr func) line) (vformat fmt args)"

section \<open>Properties\<close>

subsection \<open>C strings in the message buffer\<close>

lemma cstr_append_NUL: "cstr (xs @ NUL # ys) = cstr xs"
  unfolding cstr_def by (induction xs) auto

lemma take_length_cstr: "take (length (cstr xs)) (xs @ ys) = cstr xs"
proof -
  have "take (length (cstr xs)) xs = cstr xs"
    unfolding cstr_def by (rule takeWhile_eq_take [symmetric])
  moreover have "length (cstr xs) \<le> length xs"
    unfolding cstr_def by (rule length_takeWhile_le)
  ultimately show ?thesis by simp
qed

lemma NUL_notin_cstr: "NUL \<notin> set (cstr xs)"
  unfolding cstr_def by (auto dest: set_takeWhileD)

lemma cstr_id: "NUL \<notin> set xs \<Longrightarrow> cstr xs = xs"
  unfolding cstr_def by (induction xs) auto

lemma length_payload: "length (payload s) < LOG_BUFFER_SIZE"
proof -
  have "length (payload s) \<le> length (take (LOG_BUFFER_SIZE - 1) s)"
    unfolding payload_def cstr_def by (rule length_takeWhile_le)
  then show ?thesis by (simp add: LOG_BUFFER_SIZE_def)
qed

lemma payload_fits: "length s < LOG_BUFFER_SIZE \<Longrightarrow> NUL \<notin> set s \<Longrightarrow> payload s = s"
  by (simp add: payload_def cstr_id)

lemma payload_long:
  "NUL \<notin> set (take (LOG_BUFFER_SIZE - 1) s) \<Longrightarrow> payload s = take (LOG_BUFFER_SIZE - 1) s"
  by (simp add: payload_def cstr_id)

subsection \<open>The filter\<close>

text \<open>
  C3. \<^verbatim>\<open>CHECK_LOG_LEVEL\<close> with the threshold \<open>T\<close> in \<^verbatim>\<open>gLogLevel\<close> is the filter
  predicate: for every severity \<open>S\<close> and every threshold \<open>T\<close> it is true (1, and 0 otherwise)
  exactly when the ordinal of \<open>S\<close> is at least the ordinal of \<open>T\<close>. It is an expression that
  only reads the state. With the threshold \<^verbatim>\<open>LOG_LEVEL_OFF\<close> it is false for the four real
  severities, \<^verbatim>\<open>LOG_LEVEL_ERROR\<close> included, because the ordinal of \<^verbatim>\<open>LOG_LEVEL_OFF\<close> is
  greater than that of \<^verbatim>\<open>LOG_LEVEL_ERROR\<close>.
\<close>

theorem C3_filter_is_ordinal_comparison:
  "(CHECK_LOG_LEVEL (st\<lparr>gLogLevel := T\<rparr>) S = 1) = (S \<ge> T)
   \<and> (CHECK_LOG_LEVEL (st\<lparr>gLogLevel := T\<rparr>) S = 0) = (S < T)
   \<and> CHECK_LOG_LEVEL (st\<lparr>gLogLevel := LOG_LEVEL_OFF\<rparr>) LOG_LEVEL_DEBUG = 0
   \<and> CHECK_LOG_LEVEL (st\<lparr>gLogLevel := LOG_LEVEL_OFF\<rparr>) LOG_LEVEL_INFO = 0
   \<and> CHECK_LOG_LEVEL (st\<lparr>gLogLevel := LOG_LEVEL_OFF\<rparr>) LOG_LEVEL_WARNING = 0
   \<and> CHECK_LOG_LEVEL (st\<lparr>gLogLevel := LOG_LEVEL_OFF\<rparr>) LOG_LEVEL_ERROR = 0
   \<and> LOG_LEVEL_ERROR < LOG_LEVEL_OFF"
  by (simp add: CHECK_LOG_LEVEL_def log_level_defs)

subsection \<open>Setting levels\<close>

text \<open>
  C4. \<^verbatim>\<open>LOGGER_SET_LOGGING_LEVEL\<close> fails, on its assertion, for every level outside the
  range from \<^verbatim>\<open>LOG_LEVEL_DEBUG\<close> to \<^verbatim>\<open>LOG_LEVEL_ERROR\<close>, among them \<^verbatim>\<open>LOG_LEVEL_OFF\<close>
  and \<^verbatim>\<open>LOG_LEVEL_COUNT\<close>; for every level inside the range it succeeds and the global
  level is that level, the rest of the state unchanged.
\<close>

theorem C4_global_setter_validates:
  "(LOG_LEVEL_DEBUG \<le> lvl \<and> lvl \<le> LOG_LEVEL_ERROR \<longrightarrow>
      LOGGER_SET_LOGGING_LEVEL lvl st = Inr (st\<lparr>gLogLevel := lvl\<rparr>))
   \<and> (lvl < LOG_LEVEL_DEBUG \<or> LOG_LEVEL_ERROR < lvl \<longrightarrow>
      LOGGER_SET_LOGGING_LEVEL lvl st = Inl AssertionFailed)
   \<and> LOGGER_SET_LOGGING_LEVEL LOG_LEVEL_OFF st = Inl AssertionFailed
   \<and> LOGGER_SET_LOGGING_LEVEL LOG_LEVEL_COUNT st = Inl AssertionFailed"
  by (simp add: LOGGER_SET_LOGGING_LEVEL_def log_level_defs)

theorem C4_global_setter_validates_witness:
  "LOG_LEVEL_DEBUG \<le> LOG_LEVEL_WARNING \<and> LOG_LEVEL_WARNING \<le> LOG_LEVEL_ERROR
   \<and> LOGGER_SET_LOGGING_LEVEL LOG_LEVEL_WARNING initial_state
       = Inr (initial_state\<lparr>gLogLevel := LOG_LEVEL_WARNING\<rparr>)
   \<and> LOG_LEVEL_ERROR < 7
   \<and> LOGGER_SET_LOGGING_LEVEL 7 initial_state = Inl AssertionFailed
   \<and> (-1) < LOG_LEVEL_DEBUG
   \<and> LOGGER_SET_LOGGING_LEVEL (-1) initial_state = Inl AssertionFailed"
  using C4_global_setter_validates [of LOG_LEVEL_WARNING initial_state]
    C4_global_setter_validates [of 7 initial_state]
    C4_global_setter_validates [of "-1" initial_state]
  by (simp add: log_level_defs)

text \<open>
  C5. \<^verbatim>\<open>LOG_MODULE_SET_LEVEL\<close> validates nothing. For every level \<open>L\<close>, the real ones,
  \<^verbatim>\<open>LOG_LEVEL_OFF\<close> and every other integer: with the null handle it returns with the state
  as it was and no error; with the handle of a module it returns with no error, the level
  of that module is \<open>L\<close>, and the name of the module, the other modules, the global level
  and the UART are as they were.
\<close>

theorem C5_module_setter_unchecked:
  "LOG_MODULE_SET_LEVEL None L st = Inr st
   \<and> (modules st h = Some m \<longrightarrow>
        (\<exists>st'. LOG_MODULE_SET_LEVEL (Some h) L st = Inr st'
           \<and> modules st' h = Some \<lparr>name = name m, level = L\<rparr>
           \<and> (\<forall>k. k \<noteq> h \<longrightarrow> modules st' k = modules st k)
           \<and> gLogLevel st' = gLogLevel st
           \<and> uart st' = uart st))"
  by (simp add: LOG_MODULE_SET_LEVEL_def)

theorem C5_module_setter_unchecked_witness:
  "LOG_MODULE_SET_LEVEL None LOG_LEVEL_OFF
       \<lparr>gLogLevel = 0, modules = [''device01'' \<mapsto> \<lparr>name = ''device01'', level = 0\<rparr>], uart = []\<rparr>
     = Inr \<lparr>gLogLevel = 0, modules = [''device01'' \<mapsto> \<lparr>name = ''device01'', level = 0\<rparr>], uart = []\<rparr>
   \<and> [''device01'' \<mapsto> \<lparr>name = ''device01'', level = 0\<rparr>] ''device01''
        = Some \<lparr>name = ''device01'', level = (0::int)\<rparr>
   \<and> (\<exists>st'. LOG_MODULE_SET_LEVEL (Some ''device01'') LOG_LEVEL_OFF
           \<lparr>gLogLevel = 0, modules = [''device01'' \<mapsto> \<lparr>name = ''device01'', level = 0\<rparr>], uart = []\<rparr>
         = Inr st'
       \<and> modules st' ''device01'' = Some \<lparr>name = ''device01'', level = LOG_LEVEL_OFF\<rparr>
       \<and> gLogLevel st' = 0 \<and> uart st' = [])"
  using C5_module_setter_unchecked [of LOG_LEVEL_OFF
      "\<lparr>gLogLevel = 0, modules = [''device01'' \<mapsto> \<lparr>name = ''device01'', level = 0\<rparr>], uart = []\<rparr>"
      "''device01''" "\<lparr>name = ''device01'', level = 0\<rparr>"]
  by auto

subsection \<open>Format strings\<close>

lemma vformat_suffix:
  "NUL \<notin> set fmt \<Longrightarrow> vformat (fmt @ KNRM) args = map_option (\<lambda>t. t @ KNRM) (vformat fmt args)"
proof (induction fmt args rule: vformat.induct)
  case (1 args)
  show ?case by (simp add: KNRM_def NUL_def)
next
  case (2 c fs args)
  from "2.prems" have c: "c \<noteq> NUL" and fs: "NUL \<notin> set fs" by auto
  show ?case
  proof (cases "c = CHR ''%''")
    case False
    with 2 c fs show ?thesis by (cases "vformat fs args") simp_all
  next
    case True
    show ?thesis
    proof (cases fs)
      case Nil
      with True c show ?thesis
        by (simp add: KNRM_def NUL_def conversion_def split: list.splits)
    next
      case (Cons d fs')
      show ?thesis
      proof (cases "conversion d args")
        case None
        with True Cons 2 c fs show ?thesis by simp
      next
        case (Some r)
        obtain out args' where r: "r = (out, args')" by (cases r)
        with True Cons Some 2 c fs show ?thesis by (cases "vformat fs' args'") simp_all
      qed
    qed
  qed
qed

lemma vformat_INFO:
  "vformat (KGRN @ ''[INF][%s:%d]: '' @ KNRM @ fmt) (AStr func # AInt line # args)
   = map_option (documented_layout KGRN ''[INF]'' (cstr func) line) (vformat fmt args)"
  by (cases "vformat fmt args")
     (simp_all add: color_defs NUL_def conversion_def documented_layout_def)

lemma vformat_WARNING:
  "vformat (KYEL @ ''[WRN][%s:%d]: '' @ KNRM @ fmt) (AStr func # AInt line # args)
   = map_option (documented_layout KYEL ''[WRN]'' (cstr func) line) (vformat fmt args)"
  by (cases "vformat fmt args")
     (simp_all add: color_defs NUL_def conversion_def documented_layout_def)

lemma vformat_ERROR:
  "vformat (KRED @ ''[ERR][%s:%d]: '' @ KNRM @ fmt) (AStr func # AInt line # args)
   = map_option (documented_layout KRED ''[ERR]'' (cstr func) line) (vformat fmt args)"
  by (cases "vformat fmt args")
     (simp_all add: color_defs NUL_def conversion_def documented_layout_def)

lemma vformat_DEBUG:
  assumes "NUL \<notin> set fmt"
  shows "vformat (KWHT @ ''[DBG][%s:%d]: '' @ fmt @ KNRM) (AStr func # AInt line # args)
   = map_option (\<lambda>text. KWHT @ ''[DBG]'' @ ''['' @ cstr func @ '':'' @ dec_int line @ '']: '' @ text @ KNRM)
       (vformat fmt args)"
proof -
  have "vformat (KWHT @ ''[DBG][%s:%d]: '' @ fmt @ KNRM) (AStr func # AInt line # args)
        = map_option ((@) (KWHT @ ''[DBG]'' @ ''['' @ cstr func @ '':'' @ dec_int line @ '']: ''))
            (vformat (fmt @ KNRM) args)"
    by (cases "vformat (fmt @ KNRM) args") (simp_all add: KWHT_def NUL_def conversion_def)
  then show ?thesis
    by (simp add: vformat_suffix [OF assms] option.map_comp comp_def)
qed

subsection \<open>One call\<close>

lemma transmitted_HAL_UART_Transmit:
  "transmitted (HAL_UART_Transmit pData Size st) = transmitted st @ [take Size pData]"
  by (simp add: transmitted_def HAL_UART_Transmit_def)

lemma strlen_stored: "strlen (take n out @ [NUL]) = length (cstr (take n out))"
  by (simp add: strlen_def cstr_append_NUL)

lemma LOG_RAW_defined:
  assumes "vformat fmt args = Some out"
  shows "LOG_RAW fmt args st =
           Some (HAL_UART_Transmit (take (LOG_BUFFER_SIZE - 1) out @ [NUL])
                   (length (payload out)) st)"
  using assms
  by (simp add: LOG_RAW_def snprintf_def LOG_BUFFER_SIZE_def strlen_stored payload_def)

lemma LOG_RAW_undefined: "vformat fmt args = None \<Longrightarrow> LOG_RAW fmt args st = None"
  by (simp add: LOG_RAW_def snprintf_def)

lemma take_payload_stored:
  "take (length (payload out)) (take (LOG_BUFFER_SIZE - 1) out @ [NUL]) = payload out"
  unfolding payload_def by (rule take_length_cstr)

lemma transmitted_LOG_RAW:
  assumes "vformat fmt args = Some out"
  shows "map_option transmitted (LOG_RAW fmt args st) = Some (transmitted st @ [payload out])"
  by (simp only: LOG_RAW_defined [OF assms] option.map transmitted_HAL_UART_Transmit
        take_payload_stored)

lemma log_call_run_eq:
  "log_call_run cur c st =
     (if passes st c then LOG_RAW (call_format c) (call_args c) st else Some st)"
  by (cases c)
     (simp_all add: passes_def LOG_RAW_def LOG_DEBUG_def LOG_INFO_def LOG_WARNING_def
        LOG_ERROR_def)

lemma passes_iff:
  "passes st c = (case call_severity c of None \<Rightarrow> True | Some s \<Rightarrow> gLogLevel st \<le> s)"
  by (simp add: passes_def CHECK_LOG_LEVEL_def split: option.splits)

subsection \<open>The layout of a decorated line\<close>

text \<open>
  C2, as the code has it. Let \<open>text\<close> be the expansion of the caller's template, and let the
  severity pass the filter. In global logging the bytes sent by \<^verbatim>\<open>LOG_INFO\<close>,
  \<^verbatim>\<open>LOG_WARNING\<close> and \<^verbatim>\<open>LOG_ERROR\<close> are the payload (the first 127 bytes, up to a NUL
  byte) of \<^verbatim>\<open><color><TAG>[<func>:<line>]: <reset><text>\<close> with green \<^verbatim>\<open>[INF]\<close>, yellow
  \<^verbatim>\<open>[WRN]\<close> and red \<^verbatim>\<open>[ERR]\<close>. The bytes sent by \<^verbatim>\<open>LOG_DEBUG\<close>, for a template without
  NUL byte, are the payload of \<^verbatim>\<open><white>[DBG][<func>:<line>]: <text><reset>\<close>: the reset
  code follows the text. A line shorter than the buffer and without NUL byte is its own
  payload, so it is sent exactly. \<open>func\<close> is read as a C string.
\<close>

theorem C2_decorated_layouts:
  assumes "vformat fmt args = Some text"
  shows
    "(CHECK_LOG_LEVEL st LOG_LEVEL_INFO \<noteq> 0 \<longrightarrow>
        map_option transmitted (LOG_INFO func line fmt args st)
          = Some (transmitted st @ [payload (documented_layout KGRN ''[INF]'' (cstr func) line text)]))
     \<and> (CHECK_LOG_LEVEL st LOG_LEVEL_WARNING \<noteq> 0 \<longrightarrow>
        map_option transmitted (LOG_WARNING func line fmt args st)
          = Some (transmitted st @ [payload (documented_layout KYEL ''[WRN]'' (cstr func) line text)]))
     \<and> (CHECK_LOG_LEVEL st LOG_LEVEL_ERROR \<noteq> 0 \<longrightarrow>
        map_option transmitted (LOG_ERROR func line fmt args st)
          = Some (transmitted st @ [payload (documented_layout KRED ''[ERR]'' (cstr func) line text)]))
     \<and> (CHECK_LOG_LEVEL st LOG_LEVEL_DEBUG \<noteq> 0 \<and> NUL \<notin> set fmt \<longrightarrow>
        map_option transmitted (LOG_DEBUG func line fmt args st)
          = Some (transmitted st @
              [payload (KWHT @ ''[DBG]'' @ ''['' @ cstr func @ '':'' @ dec_int line @ '']: ''
                          @ text @ KNRM)]))
     \<and> (\<forall>s. length s < LOG_BUFFER_SIZE \<and> NUL \<notin> set s \<longrightarrow> payload s = s)
     \<and> KWHT = CHR 0x1B # ''[37m'' \<and> KGRN = CHR 0x1B # ''[32m''
     \<and> KYEL = CHR 0x1B # ''[33m'' \<and> KRED = CHR 0x1B # ''[31m''
     \<and> KNRM = CHR 0x1B # ''[0m''"
proof -
  have info: "map_option transmitted (LOG_INFO func line fmt args st)
      = Some (transmitted st @ [payload (documented_layout KGRN ''[INF]'' (cstr func) line text)])"
    if "CHECK_LOG_LEVEL st LOG_LEVEL_INFO \<noteq> 0"
  proof -
    have "LOG_INFO func line fmt args st
        = LOG_RAW (KGRN @ ''[INF][%s:%d]: '' @ KNRM @ fmt) (AStr func # AInt line # args) st"
      using that by (simp add: LOG_INFO_def LOG_RAW_def)
    moreover have "vformat (KGRN @ ''[INF][%s:%d]: '' @ KNRM @ fmt) (AStr func # AInt line # args)
        = Some (documented_layout KGRN ''[INF]'' (cstr func) line text)"
      by (simp only: vformat_INFO assms option.map)
    ultimately show ?thesis
      by (simp only: transmitted_LOG_RAW)
  qed
  have warning: "map_option transmitted (LOG_WARNING func line fmt args st)
      = Some (transmitted st @ [payload (documented_layout KYEL ''[WRN]'' (cstr func) line text)])"
    if "CHECK_LOG_LEVEL st LOG_LEVEL_WARNING \<noteq> 0"
  proof -
    have "LOG_WARNING func line fmt args st
        = LOG_RAW (KYEL @ ''[WRN][%s:%d]: '' @ KNRM @ fmt) (AStr func # AInt line # args) st"
      using that by (simp add: LOG_WARNING_def LOG_RAW_def)
    moreover have "vformat (KYEL @ ''[WRN][%s:%d]: '' @ KNRM @ fmt) (AStr func # AInt line # args)
        = Some (documented_layout KYEL ''[WRN]'' (cstr func) line text)"
      by (simp only: vformat_WARNING assms option.map)
    ultimately show ?thesis
      by (simp only: transmitted_LOG_RAW)
  qed
  have error: "map_option transmitted (LOG_ERROR func line fmt args st)
      = Some (transmitted st @ [payload (documented_layout KRED ''[ERR]'' (cstr func) line text)])"
    if "CHECK_LOG_LEVEL st LOG_LEVEL_ERROR \<noteq> 0"
  proof -
    have "LOG_ERROR func line fmt args st
        = LOG_RAW (KRED @ ''[ERR][%s:%d]: '' @ KNRM @ fmt) (AStr func # AInt line # args) st"
      using that by (simp add: LOG_ERROR_def LOG_RAW_def)
    moreover have "vformat (KRED @ ''[ERR][%s:%d]: '' @ KNRM @ fmt) (AStr func # AInt line # args)
        = Some (documented_layout KRED ''[ERR]'' (cstr func) line text)"
      by (simp only: vformat_ERROR assms option.map)
    ultimately show ?thesis
      by (simp only: transmitted_LOG_RAW)
  qed
  have debug: "map_option transmitted (LOG_DEBUG func line fmt args st)
      = Some (transmitted st @
          [payload (KWHT @ ''[DBG]'' @ ''['' @ cstr func @ '':'' @ dec_int line @ '']: ''
                      @ text @ KNRM)])"
    if "CHECK_LOG_LEVEL st LOG_LEVEL_DEBUG \<noteq> 0" and nul: "NUL \<notin> set fmt"
  proof -
    have "LOG_DEBUG func line fmt args st
        = LOG_RAW (KWHT @ ''[DBG][%s:%d]: '' @ fmt @ KNRM) (AStr func # AInt line # args) st"
      using that by (simp add: LOG_DEBUG_def LOG_RAW_def)
    moreover have "vformat (KWHT @ ''[DBG][%s:%d]: '' @ fmt @ KNRM) (AStr func # AInt line # args)
        = Some (KWHT @ ''[DBG]'' @ ''['' @ cstr func @ '':'' @ dec_int line @ '']: '' @ text @ KNRM)"
      by (simp only: vformat_DEBUG [OF nul] assms option.map)
    ultimately show ?thesis
      by (simp only: transmitted_LOG_RAW)
  qed
  show ?thesis
    using info warning error debug by (simp add: payload_fits color_defs)
qed

theorem C2_decorated_layouts_witness:
  "vformat ''iter: %u'' [AUInt 3] = Some ''iter: 3''
   \<and> CHECK_LOG_LEVEL initial_state LOG_LEVEL_INFO \<noteq> 0
   \<and> map_option transmitted (LOG_INFO ''main'' 114 ''iter: %u'' [AUInt 3] initial_state)
       = Some [KGRN @ ''[INF][main:114]: '' @ KNRM @ ''iter: 3'']
   \<and> CHECK_LOG_LEVEL initial_state LOG_LEVEL_WARNING \<noteq> 0
   \<and> map_option transmitted (LOG_WARNING ''main'' 114 ''iter: %u'' [AUInt 3] initial_state)
       = Some [KYEL @ ''[WRN][main:114]: '' @ KNRM @ ''iter: 3'']
   \<and> CHECK_LOG_LEVEL initial_state LOG_LEVEL_ERROR \<noteq> 0
   \<and> map_option transmitted (LOG_ERROR ''main'' 114 ''iter: %u'' [AUInt 3] initial_state)
       = Some [KRED @ ''[ERR][main:114]: '' @ KNRM @ ''iter: 3'']
   \<and> CHECK_LOG_LEVEL initial_state LOG_LEVEL_DEBUG \<noteq> 0
   \<and> NUL \<notin> set ''iter: %u''
   \<and> map_option transmitted (LOG_DEBUG ''main'' 114 ''iter: %u'' [AUInt 3] initial_state)
       = Some [KWHT @ ''[DBG][main:114]: iter: 3'' @ KNRM]
   \<and> length ''iter: 3'' < LOG_BUFFER_SIZE \<and> NUL \<notin> set ''iter: 3''
   \<and> payload ''iter: 3'' = ''iter: 3''"
proof -
  have h: "vformat ''iter: %u'' [AUInt 3] = Some ''iter: 3''"
    by code_simp
  have p: "CHECK_LOG_LEVEL initial_state LOG_LEVEL_INFO \<noteq> 0"
    "CHECK_LOG_LEVEL initial_state LOG_LEVEL_WARNING \<noteq> 0"
    "CHECK_LOG_LEVEL initial_state LOG_LEVEL_ERROR \<noteq> 0"
    "CHECK_LOG_LEVEL initial_state LOG_LEVEL_DEBUG \<noteq> 0"
    "NUL \<notin> set ''iter: %u''"
    "length ''iter: 3'' < LOG_BUFFER_SIZE" "NUL \<notin> set ''iter: 3''"
    by code_simp+
  have e: "transmitted initial_state = []"
    "payload (documented_layout KGRN ''[INF]'' (cstr ''main'') 114 ''iter: 3'')
       = KGRN @ ''[INF][main:114]: '' @ KNRM @ ''iter: 3''"
    "payload (documented_layout KYEL ''[WRN]'' (cstr ''main'') 114 ''iter: 3'')
       = KYEL @ ''[WRN][main:114]: '' @ KNRM @ ''iter: 3''"
    "payload (documented_layout KRED ''[ERR]'' (cstr ''main'') 114 ''iter: 3'')
       = KRED @ ''[ERR][main:114]: '' @ KNRM @ ''iter: 3''"
    "payload (KWHT @ ''[DBG]'' @ ''['' @ cstr ''main'' @ '':'' @ dec_int 114 @ '']: ''
               @ ''iter: 3'' @ KNRM)
       = KWHT @ ''[DBG][main:114]: iter: 3'' @ KNRM"
    by code_simp+
  from C2_decorated_layouts [OF h, of initial_state "''main''" 114] p e h
  show ?thesis by simp
qed

text \<open>
  The documented layout fails for \<^verbatim>\<open>LOG_DEBUG\<close>: called in \<^verbatim>\<open>main\<close> at line 7 with
  the template \<^verbatim>\<open>hi\<close>, it sends the reset code after the text, not before it.
\<close>

theorem C2_debug_line_counterexample:
  "map_option transmitted (LOG_DEBUG ''main'' 7 ''hi'' [] initial_state)
     = Some [KWHT @ ''[DBG][main:7]: hi'' @ KNRM]
   \<and> map_option transmitted (LOG_DEBUG ''main'' 7 ''hi'' [] initial_state)
     \<noteq> Some [documented_layout KWHT ''[DBG]'' ''main'' 7 ''hi'']"
  by code_simp

subsection \<open>Truncation and termination\<close>

lemma nth_strlen_stored: "(xs @ [NUL]) ! length (cstr xs) = NUL"
proof (cases "length (cstr xs) < length xs")
  case True
  then have "\<not> (xs ! length (cstr xs) \<noteq> NUL)"
    unfolding cstr_def by (rule nth_length_takeWhile)
  with True show ?thesis by (simp add: nth_append)
next
  case False
  moreover have "length (cstr xs) \<le> length xs"
    unfolding cstr_def by (rule length_takeWhile_le)
  ultimately have "length (cstr xs) = length xs" by simp
  then show ?thesis by (simp add: nth_append)
qed

lemma log_call_run_defined:
  assumes "passes st c" and "vformat (call_format c) (call_args c) = Some out"
  shows "log_call_run cur c st =
           Some (HAL_UART_Transmit (take (LOG_BUFFER_SIZE - 1) out @ [NUL])
                   (strlen (take (LOG_BUFFER_SIZE - 1) out @ [NUL])) st)"
  using assms(1) LOG_RAW_defined [OF assms(2), of st]
  by (simp add: log_call_run_eq strlen_stored payload_def)

lemma log_call_run_blocked: "\<not> passes st c \<Longrightarrow> log_call_run cur c st = Some st"
  by (simp add: log_call_run_eq)

lemma log_call_run_SomeD:
  assumes "log_call_run cur c st = Some st'" and "passes st c"
  shows "\<exists>out. vformat (call_format c) (call_args c) = Some out"
proof (cases "vformat (call_format c) (call_args c)")
  case None
  with assms show ?thesis by (simp add: log_call_run_eq LOG_RAW_undefined)
next
  case (Some out)
  then show ?thesis by blast
qed

text \<open>
  C6, as the code has it. When the expansion of the format a log operation renders has
  \<^verbatim>\<open>LOG_BUFFER_SIZE\<close> bytes or more, the operation returns without an error. It stores
  the first \<^verbatim>\<open>LOG_BUFFER_SIZE - 1\<close> bytes of the expansion and the terminating NUL, which
  is \<^verbatim>\<open>LOG_BUFFER_SIZE\<close> bytes and so never past the buffer. It sends at most
  \<^verbatim>\<open>LOG_BUFFER_SIZE - 1\<close> bytes, the payload of the expansion: exactly its first
  \<^verbatim>\<open>LOG_BUFFER_SIZE - 1\<close> bytes when there is no NUL byte among them.
\<close>

theorem C6_truncation_to_buffer:
  assumes "passes st c"
    and "vformat (call_format c) (call_args c) = Some out"
    and "LOG_BUFFER_SIZE \<le> length out"
  shows "\<exists>msg. log_call_run cur c st = Some (HAL_UART_Transmit msg (strlen msg) st)
           \<and> msg = take (LOG_BUFFER_SIZE - 1) out @ [NUL]
           \<and> length msg = LOG_BUFFER_SIZE
           \<and> strlen msg \<le> LOG_BUFFER_SIZE - 1
           \<and> take (strlen msg) msg = payload out
           \<and> (NUL \<notin> set (take (LOG_BUFFER_SIZE - 1) out) \<longrightarrow>
                strlen msg = LOG_BUFFER_SIZE - 1
                \<and> take (strlen msg) msg = take (LOG_BUFFER_SIZE - 1) out)"
proof -
  let ?msg = "take (LOG_BUFFER_SIZE - 1) out @ [NUL]"
  have run: "log_call_run cur c st = Some (HAL_UART_Transmit ?msg (strlen ?msg) st)"
    by (rule log_call_run_defined [OF assms(1,2)])
  have len: "length ?msg = LOG_BUFFER_SIZE"
    using assms(3) by (simp add: LOG_BUFFER_SIZE_def)
  have sl: "strlen ?msg = length (payload out)"
    by (simp only: strlen_stored payload_def)
  have le: "strlen ?msg \<le> LOG_BUFFER_SIZE - 1"
    using length_payload [of out] unfolding sl by simp
  have tk: "take (strlen ?msg) ?msg = payload out"
    unfolding sl by (rule take_payload_stored)
  have full: "strlen ?msg = LOG_BUFFER_SIZE - 1
      \<and> take (strlen ?msg) ?msg = take (LOG_BUFFER_SIZE - 1) out"
    if "NUL \<notin> set (take (LOG_BUFFER_SIZE - 1) out)"
  proof -
    have p: "payload out = take (LOG_BUFFER_SIZE - 1) out"
      by (rule payload_long [OF that])
    have "length (payload out) = LOG_BUFFER_SIZE - 1"
      unfolding p using assms(3) by simp
    with tk p sl show ?thesis by simp
  qed
  from run len le tk full show ?thesis by blast
qed

theorem C6_truncation_to_buffer_witness:
  "passes initial_state (Raw ''%s'' [AStr (replicate 200 (CHR ''a''))])
   \<and> vformat (call_format (Raw ''%s'' [AStr (replicate 200 (CHR ''a''))]))
        (call_args (Raw ''%s'' [AStr (replicate 200 (CHR ''a''))]))
       = Some (replicate 200 (CHR ''a''))
   \<and> LOG_BUFFER_SIZE \<le> length (replicate 200 (CHR ''a''))
   \<and> NUL \<notin> set (take (LOG_BUFFER_SIZE - 1) (replicate 200 (CHR ''a'')))
   \<and> log_call_run None (Raw ''%s'' [AStr (replicate 200 (CHR ''a''))]) initial_state
       = Some (HAL_UART_Transmit (replicate 127 (CHR ''a'') @ [NUL]) 127 initial_state)"
proof -
  let ?c = "Raw ''%s'' [AStr (replicate 200 (CHR ''a''))]"
  have h1: "passes initial_state ?c" by code_simp
  have h2: "vformat (call_format ?c) (call_args ?c) = Some (replicate 200 (CHR ''a''))"
    by code_simp
  have h3: "LOG_BUFFER_SIZE \<le> length (replicate 200 (CHR ''a''))"
    by (simp add: LOG_BUFFER_SIZE_def)
  have h4: "NUL \<notin> set (take (LOG_BUFFER_SIZE - 1) (replicate 200 (CHR ''a'')))"
    by (simp add: NUL_def)
  have e: "take (LOG_BUFFER_SIZE - 1) (replicate 200 (CHR ''a'')) = replicate 127 (CHR ''a'')"
    "LOG_BUFFER_SIZE - 1 = 127"
    by (simp_all add: LOG_BUFFER_SIZE_def)
  from C6_truncation_to_buffer [OF h1 h2 h3, of None] h4
  have "log_call_run None ?c initial_state
      = Some (HAL_UART_Transmit (replicate 127 (CHR ''a'') @ [NUL]) 127 initial_state)"
    unfolding e by auto
  with h1 h2 h3 h4 show ?thesis by simp
qed

text \<open>
  The output is not cut to the capacity: \<^verbatim>\<open>LOG_RAW("%s", s)\<close> with 200 bytes in \<open>s\<close>
  sends 127 bytes, one less than \<^verbatim>\<open>LOG_BUFFER_SIZE\<close>.
\<close>

theorem C6_length_counterexample:
  "map_option length (vformat ''%s'' [AStr (replicate 200 (CHR ''a''))]) = Some 200
   \<and> map_option (map length \<circ> transmitted)
        (LOG_RAW ''%s'' [AStr (replicate 200 (CHR ''a''))] initial_state) = Some [127]
   \<and> map_option (map length \<circ> transmitted)
        (LOG_RAW ''%s'' [AStr (replicate 200 (CHR ''a''))] initial_state)
       \<noteq> Some [LOG_BUFFER_SIZE]"
  by code_simp

text \<open>
  C7, as the code has it. For every template and arguments with an expansion \<open>text\<close>, and
  in every state, whatever the global level and the module levels, \<^verbatim>\<open>LOG_RAW\<close> calls
  the UART once and changes nothing else. The bytes sent are the payload of \<open>text\<close>, with
  no colour code, tag, module, function or line added: \<open>text\<close> itself when it is shorter
  than the buffer and has no NUL byte, and its first 127 bytes up to a NUL byte otherwise.
\<close>

theorem C7_raw_is_unfiltered_text:
  assumes "vformat fmt args = Some text"
  shows "map_option transmitted (LOG_RAW fmt args st) = Some (transmitted st @ [payload text])
     \<and> map_option gLogLevel (LOG_RAW fmt args st) = Some (gLogLevel st)
     \<and> map_option modules (LOG_RAW fmt args st) = Some (modules st)
     \<and> (length text < LOG_BUFFER_SIZE \<and> NUL \<notin> set text \<longrightarrow>
          map_option transmitted (LOG_RAW fmt args st) = Some (transmitted st @ [text]))"
proof -
  have t: "map_option transmitted (LOG_RAW fmt args st) = Some (transmitted st @ [payload text])"
    by (rule transmitted_LOG_RAW [OF assms])
  have g: "map_option gLogLevel (LOG_RAW fmt args st) = Some (gLogLevel st)"
    by (simp add: LOG_RAW_defined [OF assms] HAL_UART_Transmit_def)
  have m: "map_option modules (LOG_RAW fmt args st) = Some (modules st)"
    by (simp add: LOG_RAW_defined [OF assms] HAL_UART_Transmit_def)
  have f: "map_option transmitted (LOG_RAW fmt args st) = Some (transmitted st @ [text])"
    if "length text < LOG_BUFFER_SIZE \<and> NUL \<notin> set text"
    using that by (simp add: t payload_fits)
  from t g m f show ?thesis by blast
qed

theorem C7_raw_is_unfiltered_text_witness:
  "vformat ''Unformatted %s'' [AStr ''message''] = Some ''Unformatted message''
   \<and> length ''Unformatted message'' < LOG_BUFFER_SIZE
   \<and> NUL \<notin> set ''Unformatted message''
   \<and> map_option transmitted
        (LOG_RAW ''Unformatted %s'' [AStr ''message''] (initial_state\<lparr>gLogLevel := LOG_LEVEL_OFF\<rparr>))
       = Some [''Unformatted message'']
   \<and> map_option gLogLevel
        (LOG_RAW ''Unformatted %s'' [AStr ''message''] (initial_state\<lparr>gLogLevel := LOG_LEVEL_OFF\<rparr>))
       = Some LOG_LEVEL_OFF"
proof -
  have h: "vformat ''Unformatted %s'' [AStr ''message''] = Some ''Unformatted message''"
    by code_simp
  have p: "length ''Unformatted message'' < LOG_BUFFER_SIZE"
    "NUL \<notin> set ''Unformatted message''"
    "transmitted (initial_state\<lparr>gLogLevel := LOG_LEVEL_OFF\<rparr>) = []"
    by code_simp+
  from C7_raw_is_unfiltered_text [OF h, of "initial_state\<lparr>gLogLevel := LOG_LEVEL_OFF\<rparr>"] p h
  show ?thesis by simp
qed

text \<open>
  The bytes sent are not always the whole text: \<^verbatim>\<open>LOG_RAW("%s", s)\<close> with 130 bytes in
  \<open>s\<close> sends the first 127 of them.
\<close>

theorem C7_long_text_counterexample:
  "vformat ''%s'' [AStr (replicate 130 (CHR ''a''))] = Some (replicate 130 (CHR ''a''))
   \<and> map_option transmitted (LOG_RAW ''%s'' [AStr (replicate 130 (CHR ''a''))] initial_state)
       = Some [replicate 127 (CHR ''a'')]
   \<and> map_option transmitted (LOG_RAW ''%s'' [AStr (replicate 130 (CHR ''a''))] initial_state)
       \<noteq> Some [replicate 130 (CHR ''a'')]"
  by code_simp

text \<open>
  C10. Every log operation that reaches the transmit step, raw or decorated, truncated or
  not, passes a buffer and a length to \<^verbatim>\<open>HAL_UART_Transmit\<close> such that: the length is the
  string length of the buffer; the buffer holds a NUL byte at that index and none before
  it; the buffer has at most \<^verbatim>\<open>LOG_BUFFER_SIZE\<close> bytes; and the length is less than
  \<^verbatim>\<open>LOG_BUFFER_SIZE\<close>, that is at most 127. An operation reaches the step when its
  severity passes the filter and \<^verbatim>\<open>snprintf\<close> returns; an operation that the filter stops
  leaves the state as it was.
\<close>

theorem C10_transmit_gets_terminated_buffer:
  "(passes st c \<and> vformat (call_format c) (call_args c) = Some out \<longrightarrow>
      log_call_run cur c st \<noteq> None)
   \<and> (passes st c \<and> log_call_run cur c st = Some st' \<longrightarrow>
      (\<exists>msg. st' = HAL_UART_Transmit msg (strlen msg) st
         \<and> length msg \<le> LOG_BUFFER_SIZE
         \<and> strlen msg < length msg
         \<and> msg ! strlen msg = NUL
         \<and> NUL \<notin> set (take (strlen msg) msg)
         \<and> strlen msg < LOG_BUFFER_SIZE
         \<and> strlen msg \<le> 127))
   \<and> (\<not> passes st c \<longrightarrow> log_call_run cur c st = Some st)"
proof -
  have reach: "log_call_run cur c st \<noteq> None"
    if "passes st c \<and> vformat (call_format c) (call_args c) = Some out"
    using that log_call_run_defined [of st c out cur] by simp
  have ok: "\<exists>msg. st' = HAL_UART_Transmit msg (strlen msg) st
         \<and> length msg \<le> LOG_BUFFER_SIZE
         \<and> strlen msg < length msg
         \<and> msg ! strlen msg = NUL
         \<and> NUL \<notin> set (take (strlen msg) msg)
         \<and> strlen msg < LOG_BUFFER_SIZE
         \<and> strlen msg \<le> 127"
    if h: "passes st c \<and> log_call_run cur c st = Some st'"
  proof -
    from h obtain out' where e: "vformat (call_format c) (call_args c) = Some out'"
      using log_call_run_SomeD by blast
    let ?msg = "take (LOG_BUFFER_SIZE - 1) out' @ [NUL]"
    from h e have run: "st' = HAL_UART_Transmit ?msg (strlen ?msg) st"
      using log_call_run_defined [of st c out' cur] by simp
    have sl: "strlen ?msg = length (payload out')"
      by (simp only: strlen_stored payload_def)
    have "length (payload out') \<le> length (take (LOG_BUFFER_SIZE - 1) out')"
      unfolding payload_def cstr_def by (rule length_takeWhile_le)
    moreover have "length ?msg = Suc (length (take (LOG_BUFFER_SIZE - 1) out'))"
      by simp
    ultimately have lt: "strlen ?msg < length ?msg"
      unfolding sl by linarith
    have len: "length ?msg \<le> LOG_BUFFER_SIZE"
      by (simp add: LOG_BUFFER_SIZE_def)
    have nul: "?msg ! strlen ?msg = NUL"
      unfolding strlen_stored by (rule nth_strlen_stored)
    have "take (strlen ?msg) ?msg = payload out'"
      unfolding sl by (rule take_payload_stored)
    then have none: "NUL \<notin> set (take (strlen ?msg) ?msg)"
      by (simp add: payload_def NUL_notin_cstr)
    have bound: "strlen ?msg < LOG_BUFFER_SIZE"
      unfolding sl by (rule length_payload)
    then have "strlen ?msg \<le> 127"
      by (simp add: LOG_BUFFER_SIZE_def)
    with run len lt nul none bound show ?thesis by blast
  qed
  from reach ok log_call_run_blocked [of st c cur] show ?thesis by blast
qed

theorem C10_transmit_gets_terminated_buffer_witness:
  "passes initial_state (Error ''main'' 115 ''Error msg iter: %u'' [AUInt 4])
   \<and> vformat (call_format (Error ''main'' 115 ''Error msg iter: %u'' [AUInt 4]))
        (call_args (Error ''main'' 115 ''Error msg iter: %u'' [AUInt 4]))
       = Some (KRED @ ''[ERR][main:115]: '' @ KNRM @ ''Error msg iter: 4'')
   \<and> log_call_run None (Error ''main'' 115 ''Error msg iter: %u'' [AUInt 4]) initial_state
       = Some (HAL_UART_Transmit (KRED @ ''[ERR][main:115]: '' @ KNRM @ ''Error msg iter: 4'' @ [NUL])
                 43 initial_state)
   \<and> (\<exists>msg. HAL_UART_Transmit (KRED @ ''[ERR][main:115]: '' @ KNRM @ ''Error msg iter: 4'' @ [NUL])
                 43 initial_state
          = HAL_UART_Transmit msg (strlen msg) initial_state
         \<and> length msg \<le> LOG_BUFFER_SIZE
         \<and> strlen msg < length msg
         \<and> msg ! strlen msg = NUL
         \<and> NUL \<notin> set (take (strlen msg) msg)
         \<and> strlen msg < LOG_BUFFER_SIZE
         \<and> strlen msg \<le> 127)
   \<and> \<not> passes (initial_state\<lparr>gLogLevel := LOG_LEVEL_OFF\<rparr>)
          (Error ''main'' 115 ''Error msg iter: %u'' [AUInt 4])
   \<and> log_call_run None (Error ''main'' 115 ''Error msg iter: %u'' [AUInt 4])
        (initial_state\<lparr>gLogLevel := LOG_LEVEL_OFF\<rparr>)
       = Some (initial_state\<lparr>gLogLevel := LOG_LEVEL_OFF\<rparr>)"
proof -
  let ?c = "Error ''main'' 115 ''Error msg iter: %u'' [AUInt 4]"
  let ?r = "HAL_UART_Transmit (KRED @ ''[ERR][main:115]: '' @ KNRM @ ''Error msg iter: 4'' @ [NUL])
                 43 initial_state"
  have h1: "passes initial_state ?c" by code_simp
  have h2: "vformat (call_format ?c) (call_args ?c)
      = Some (KRED @ ''[ERR][main:115]: '' @ KNRM @ ''Error msg iter: 4'')"
    by code_simp
  have e: "take (LOG_BUFFER_SIZE - 1) (KRED @ ''[ERR][main:115]: '' @ KNRM @ ''Error msg iter: 4'') @ [NUL]
      = KRED @ ''[ERR][main:115]: '' @ KNRM @ ''Error msg iter: 4'' @ [NUL]"
    "strlen (KRED @ ''[ERR][main:115]: '' @ KNRM @ ''Error msg iter: 4'' @ [NUL]) = 43"
    by code_simp+
  have h3: "log_call_run None ?c initial_state = Some ?r"
    by (simp only: log_call_run_defined [OF h1 h2] e)
  have h4: "\<not> passes (initial_state\<lparr>gLogLevel := LOG_LEVEL_OFF\<rparr>) ?c" by code_simp
  from C10_transmit_gets_terminated_buffer [of initial_state ?c _ None ?r] h1 h3
  have a: "\<exists>msg. ?r = HAL_UART_Transmit msg (strlen msg) initial_state
         \<and> length msg \<le> LOG_BUFFER_SIZE
         \<and> strlen msg < length msg
         \<and> msg ! strlen msg = NUL
         \<and> NUL \<notin> set (take (strlen msg) msg)
         \<and> strlen msg < LOG_BUFFER_SIZE
         \<and> strlen msg \<le> 127"
    by blast
  from C10_transmit_gets_terminated_buffer
         [of "initial_state\<lparr>gLogLevel := LOG_LEVEL_OFF\<rparr>" ?c _ None] h4
  have b: "log_call_run None ?c (initial_state\<lparr>gLogLevel := LOG_LEVEL_OFF\<rparr>)
      = Some (initial_state\<lparr>gLogLevel := LOG_LEVEL_OFF\<rparr>)"
    by blast
  from h1 h2 h3 h4 a b show ?thesis by blast
qed

subsection \<open>Sequences of calls\<close>

lemma expansion_documented:
  assumes "call_severity c = Some LOG_LEVEL_WARNING \<or> call_severity c = Some LOG_LEVEL_ERROR"
  shows "vformat (call_format c) (call_args c) = documented_line c"
proof (cases c)
  case (Raw fmt args)
  with assms show ?thesis by simp
next
  case (Debug func line fmt args)
  with assms show ?thesis by (simp add: log_level_defs)
next
  case (Info func line fmt args)
  with assms show ?thesis by (simp add: log_level_defs)
next
  case (Warning func line fmt args)
  then show ?thesis
    by (simp only: call_format.simps call_args.simps documented_line.simps vformat_WARNING)
next
  case (Error func line fmt args)
  then show ?thesis
    by (simp only: call_format.simps call_args.simps documented_line.simps vformat_ERROR)
qed

lemma passes_WARNING:
  assumes "gLogLevel st = LOG_LEVEL_WARNING" and "call_severity c \<noteq> None"
  shows "passes st c =
     (call_severity c = Some LOG_LEVEL_WARNING \<or> call_severity c = Some LOG_LEVEL_ERROR)"
  using assms by (cases c) (simp_all add: passes_iff log_level_defs)

text \<open>
  C8, as the code has it. With the global level \<^verbatim>\<open>LOG_LEVEL_WARNING\<close>, in global logging,
  a sequence of \<^verbatim>\<open>LOG_DEBUG\<close>, \<^verbatim>\<open>LOG_INFO\<close>, \<^verbatim>\<open>LOG_WARNING\<close> and \<^verbatim>\<open>LOG_ERROR\<close> calls sends
  one message for each \<^verbatim>\<open>LOG_WARNING\<close> and \<^verbatim>\<open>LOG_ERROR\<close> call, in the order of the calls,
  and nothing for the others. Each message is the payload of the documented line of its
  call: the line itself, with colour, tag, function name, line number and reset code, when
  the line is shorter than the buffer and has no NUL byte, and its first 127 bytes up to
  a NUL byte otherwise.
\<close>

theorem C8_threshold_WARNING:
  assumes "gLogLevel st = LOG_LEVEL_WARNING"
    and "\<forall>c\<in>set cs. call_severity c \<noteq> None"
    and "\<forall>c\<in>set cs.
           call_severity c = Some LOG_LEVEL_WARNING \<or> call_severity c = Some LOG_LEVEL_ERROR
           \<longrightarrow> vformat (call_format c) (call_args c) \<noteq> None"
  shows "map_option transmitted (log_calls_run None cs st) =
           Some (transmitted st @
             map (\<lambda>c. payload (the (documented_line c)))
               (filter (\<lambda>c. call_severity c = Some LOG_LEVEL_WARNING
                          \<or> call_severity c = Some LOG_LEVEL_ERROR) cs))"
  using assms
proof (induction cs arbitrary: st)
  case Nil
  show ?case by simp
next
  case (Cons c cs)
  let ?keep = "\<lambda>c. call_severity c = Some LOG_LEVEL_WARNING
                 \<or> call_severity c = Some LOG_LEVEL_ERROR"
  from Cons.prems have sev: "call_severity c \<noteq> None" by simp
  show ?case
  proof (cases "?keep c")
    case True
    with Cons.prems obtain out where out: "vformat (call_format c) (call_args c) = Some out"
      by auto
    from True have doc: "documented_line c = Some out"
      using expansion_documented [of c] out by simp
    from True have p: "passes st c"
      using passes_WARNING [OF Cons.prems(1) sev] by simp
    let ?st' = "HAL_UART_Transmit (take (LOG_BUFFER_SIZE - 1) out @ [NUL])
                  (length (payload out)) st"
    have run: "log_call_run None c st = Some ?st'"
      using p LOG_RAW_defined [OF out, of st] by (simp add: log_call_run_eq)
    have g: "gLogLevel ?st' = LOG_LEVEL_WARNING"
      using Cons.prems(1) by (simp add: HAL_UART_Transmit_def)
    have t: "transmitted ?st' = transmitted st @ [payload out]"
      by (simp only: transmitted_HAL_UART_Transmit take_payload_stored)
    from Cons.prems have rest: "\<forall>c\<in>set cs. call_severity c \<noteq> None"
      "\<forall>c\<in>set cs. ?keep c \<longrightarrow> vformat (call_format c) (call_args c) \<noteq> None"
      by simp_all
    from Cons.IH [OF g rest] True run t doc show ?thesis by simp
  next
    case False
    then have "\<not> passes st c"
      using passes_WARNING [OF Cons.prems(1) sev] by simp
    then have run: "log_call_run None c st = Some st"
      by (rule log_call_run_blocked)
    from Cons.prems have rest: "\<forall>c\<in>set cs. call_severity c \<noteq> None"
      "\<forall>c\<in>set cs. ?keep c \<longrightarrow> vformat (call_format c) (call_args c) \<noteq> None"
      by simp_all
    from Cons.IH [OF Cons.prems(1) rest] False run show ?thesis by simp
  qed
qed

theorem C8_threshold_WARNING_witness:
  "LOGGER_SET_LOGGING_LEVEL LOG_LEVEL_WARNING initial_state
     = Inr (initial_state\<lparr>gLogLevel := LOG_LEVEL_WARNING\<rparr>)
   \<and> gLogLevel (initial_state\<lparr>gLogLevel := LOG_LEVEL_WARNING\<rparr>) = LOG_LEVEL_WARNING
   \<and> list_all (\<lambda>c. call_severity c \<noteq> None)
        [Debug ''main'' 112 ''Debug msg iter: %u'' [AUInt 0],
         Info ''main'' 113 ''Info msg iter: %u'' [AUInt 0],
         Warning ''main'' 114 ''Warning msg iter: %u'' [AUInt 0],
         Error ''main'' 115 ''Error msg iter: %u'' [AUInt 0]]
   \<and> list_all (\<lambda>c. vformat (call_format c) (call_args c) \<noteq> None)
        [Debug ''main'' 112 ''Debug msg iter: %u'' [AUInt 0],
         Info ''main'' 113 ''Info msg iter: %u'' [AUInt 0],
         Warning ''main'' 114 ''Warning msg iter: %u'' [AUInt 0],
         Error ''main'' 115 ''Error msg iter: %u'' [AUInt 0]]
   \<and> map_option transmitted
        (log_calls_run None
          [Debug ''main'' 112 ''Debug msg iter: %u'' [AUInt 0],
           Info ''main'' 113 ''Info msg iter: %u'' [AUInt 0],
           Warning ''main'' 114 ''Warning msg iter: %u'' [AUInt 0],
           Error ''main'' 115 ''Error msg iter: %u'' [AUInt 0]]
          (initial_state\<lparr>gLogLevel := LOG_LEVEL_WARNING\<rparr>))
       = Some [KYEL @ ''[WRN][main:114]: '' @ KNRM @ ''Warning msg iter: 0'',
               KRED @ ''[ERR][main:115]: '' @ KNRM @ ''Error msg iter: 0'']"
proof -
  let ?cs = "[Debug ''main'' 112 ''Debug msg iter: %u'' [AUInt 0],
         Info ''main'' 113 ''Info msg iter: %u'' [AUInt 0],
         Warning ''main'' 114 ''Warning msg iter: %u'' [AUInt 0],
         Error ''main'' 115 ''Error msg iter: %u'' [AUInt 0]]"
  let ?st = "initial_state\<lparr>gLogLevel := LOG_LEVEL_WARNING\<rparr>"
  have s: "LOGGER_SET_LOGGING_LEVEL LOG_LEVEL_WARNING initial_state = Inr ?st"
    by (simp add: LOGGER_SET_LOGGING_LEVEL_def log_level_defs)
  have h1: "gLogLevel ?st = LOG_LEVEL_WARNING" by simp
  have a2: "list_all (\<lambda>c. call_severity c \<noteq> None) ?cs" by code_simp
  have a3: "list_all (\<lambda>c. vformat (call_format c) (call_args c) \<noteq> None) ?cs" by code_simp
  from a2 have h2: "\<forall>c\<in>set ?cs. call_severity c \<noteq> None"
    by (simp only: list_all_iff)
  from a3 have h3: "\<forall>c\<in>set ?cs.
           call_severity c = Some LOG_LEVEL_WARNING \<or> call_severity c = Some LOG_LEVEL_ERROR
           \<longrightarrow> vformat (call_format c) (call_args c) \<noteq> None"
    by (simp only: list_all_iff) blast
  have e: "transmitted ?st @
             map (\<lambda>c. payload (the (documented_line c)))
               (filter (\<lambda>c. call_severity c = Some LOG_LEVEL_WARNING
                          \<or> call_severity c = Some LOG_LEVEL_ERROR) ?cs)
      = [KYEL @ ''[WRN][main:114]: '' @ KNRM @ ''Warning msg iter: 0'',
         KRED @ ''[ERR][main:115]: '' @ KNRM @ ''Error msg iter: 0'']"
    by code_simp
  from C8_threshold_WARNING [OF h1 h2 h3] s h1 a2 a3 show ?thesis
    unfolding e by blast
qed

text \<open>
  A produced message does not always carry the reset code, the whole function name and
  the line number: from a function whose name has 130 bytes, \<^verbatim>\<open>LOG_WARNING("x")\<close> at
  line 1 sends the colour, the tag and 116 bytes of the name, and the buffer is full.
\<close>

theorem C8_long_function_name_counterexample:
  "map_option transmitted
     (log_calls_run None [Warning (replicate 130 (CHR ''f'')) 1 ''x'' []]
        (initial_state\<lparr>gLogLevel := LOG_LEVEL_WARNING\<rparr>))
     = Some [KYEL @ ''[WRN]['' @ replicate 116 (CHR ''f'')]
   \<and> KYEL @ ''[WRN]['' @ replicate 116 (CHR ''f'')
       \<noteq> documented_layout KYEL ''[WRN]'' (replicate 130 (CHR ''f'')) 1 ''x''
   \<and> CHR ''0'' \<in> set KNRM
   \<and> CHR ''0'' \<notin> set (KYEL @ ''[WRN]['' @ replicate 116 (CHR ''f''))
   \<and> CHR ''1'' \<in> set (dec_int 1)
   \<and> CHR ''1'' \<notin> set (KYEL @ ''[WRN]['' @ replicate 116 (CHR ''f''))"
  by code_simp

subsection \<open>Modules\<close>

lemma log_call_run_modules:
  "log_call_run cur c (st\<lparr>modules := ms\<rparr>) =
     map_option (\<lambda>s. s\<lparr>modules := ms\<rparr>) (log_call_run cur c st)"
  by (simp add: log_call_run_eq passes_iff LOG_RAW_def HAL_UART_Transmit_def
        split: option.splits)

lemma transmitted_modules: "transmitted (st\<lparr>modules := ms\<rparr>) = transmitted st"
  by (simp add: transmitted_def)

text \<open>
  C9. Let two modules be registered under different names \<open>A\<close> and \<open>B\<close>. Setting the level
  of \<open>A\<close> through its handle, to any level, \<^verbatim>\<open>LOG_LEVEL_OFF\<close> included, succeeds, changes
  the level of \<open>A\<close>, and leaves the name and the level of \<open>B\<close> as they were. It changes
  for no call whether the filter lets it pass, and a call made in a unit whose current
  module is \<open>B\<close> sends after it what it sent before.
\<close>

theorem C9_modules_independent:
  assumes "A \<noteq> B" and "modules st A = Some a" and "modules st B = Some b"
  shows "\<exists>st'. LOG_MODULE_SET_LEVEL (LOG_MODULE_NAME A) L st = Inr st'
           \<and> modules st' A = Some \<lparr>name = name a, level = L\<rparr>
           \<and> modules st' B = Some b
           \<and> (\<forall>c. passes st' c = passes st c)
           \<and> (\<forall>c. map_option transmitted (log_call_run (LOG_MODULE_NAME B) c st')
                  = map_option transmitted (log_call_run (LOG_MODULE_NAME B) c st))"
proof -
  let ?st' = "st\<lparr>modules := (modules st)(A \<mapsto> a\<lparr>level := L\<rparr>)\<rparr>"
  have run: "LOG_MODULE_SET_LEVEL (LOG_MODULE_NAME A) L st = Inr ?st'"
    using assms(2) by (simp add: LOG_MODULE_SET_LEVEL_def LOG_MODULE_NAME_def)
  have ma: "modules ?st' A = Some \<lparr>name = name a, level = L\<rparr>"
    by simp
  have mb: "modules ?st' B = Some b"
    using assms(1,3) by simp
  have p: "passes ?st' c = passes st c" for c
    by (simp add: passes_iff split: option.splits)
  have t: "map_option transmitted (log_call_run (LOG_MODULE_NAME B) c ?st')
      = map_option transmitted (log_call_run (LOG_MODULE_NAME B) c st)" for c
    by (simp add: log_call_run_modules option.map_comp comp_def transmitted_modules)
  from run ma mb p t show ?thesis by blast
qed

theorem C9_modules_independent_witness:
  "LOG_MODULE_REGISTER ''main'' LOG_LEVEL_DEBUG initial_state
     = Inr (initial_state\<lparr>modules := [''main'' \<mapsto> \<lparr>name = ''main'', level = LOG_LEVEL_DEBUG\<rparr>]\<rparr>,
            Some ''main'')
   \<and> LOG_MODULE_REGISTER ''test'' LOG_LEVEL_INFO
        (initial_state\<lparr>modules := [''main'' \<mapsto> \<lparr>name = ''main'', level = LOG_LEVEL_DEBUG\<rparr>]\<rparr>)
     = Inr (initial_state\<lparr>modules :=
              [''main'' \<mapsto> \<lparr>name = ''main'', level = LOG_LEVEL_DEBUG\<rparr>,
               ''test'' \<mapsto> \<lparr>name = ''test'', level = LOG_LEVEL_INFO\<rparr>]\<rparr>,
            Some ''test'')
   \<and> ''main'' \<noteq> ''test''
   \<and> (\<exists>st'. LOG_MODULE_SET_LEVEL (LOG_MODULE_NAME ''main'') LOG_LEVEL_OFF
              (initial_state\<lparr>modules :=
                [''main'' \<mapsto> \<lparr>name = ''main'', level = LOG_LEVEL_DEBUG\<rparr>,
                 ''test'' \<mapsto> \<lparr>name = ''test'', level = LOG_LEVEL_INFO\<rparr>]\<rparr>) = Inr st'
         \<and> modules st' ''main'' = Some \<lparr>name = ''main'', level = LOG_LEVEL_OFF\<rparr>
         \<and> modules st' ''test'' = Some \<lparr>name = ''test'', level = LOG_LEVEL_INFO\<rparr>
         \<and> map_option transmitted
              (log_call_run (LOG_MODULE_NAME ''test'') (Warning ''TestFunc'' 16 ''from test'' []) st')
            = Some [KYEL @ ''[WRN][TestFunc:16]: '' @ KNRM @ ''from test''])"
proof -
  let ?s1 = "initial_state\<lparr>modules := [''main'' \<mapsto> \<lparr>name = ''main'', level = LOG_LEVEL_DEBUG\<rparr>]\<rparr>"
  let ?s2 = "initial_state\<lparr>modules :=
              [''main'' \<mapsto> \<lparr>name = ''main'', level = LOG_LEVEL_DEBUG\<rparr>,
               ''test'' \<mapsto> \<lparr>name = ''test'', level = LOG_LEVEL_INFO\<rparr>]\<rparr>"
  have r1: "LOG_MODULE_REGISTER ''main'' LOG_LEVEL_DEBUG initial_state = Inr (?s1, Some ''main'')"
    by (simp add: LOG_MODULE_REGISTER_def initial_state_def)
  have r2: "LOG_MODULE_REGISTER ''test'' LOG_LEVEL_INFO ?s1 = Inr (?s2, Some ''test'')"
    by (simp add: LOG_MODULE_REGISTER_def initial_state_def)
  have h1: "''main'' \<noteq> ''test''" by simp
  have h2: "modules ?s2 ''main'' = Some \<lparr>name = ''main'', level = LOG_LEVEL_DEBUG\<rparr>"
    by simp
  have h3: "modules ?s2 ''test'' = Some \<lparr>name = ''test'', level = LOG_LEVEL_INFO\<rparr>"
    by simp
  have before: "map_option transmitted
       (log_call_run (LOG_MODULE_NAME ''test'') (Warning ''TestFunc'' 16 ''from test'' []) ?s2)
     = Some [KYEL @ ''[WRN][TestFunc:16]: '' @ KNRM @ ''from test'']"
    by (simp only: log_call_run_modules option.map_comp comp_def transmitted_modules) code_simp
  from C9_modules_independent [OF h1 h2 h3, of LOG_LEVEL_OFF]
  obtain st' where run: "LOG_MODULE_SET_LEVEL (LOG_MODULE_NAME ''main'') LOG_LEVEL_OFF ?s2 = Inr st'"
    and ma: "modules st' ''main'' = Some \<lparr>name = ''main'', level = LOG_LEVEL_OFF\<rparr>"
    and mb: "modules st' ''test'' = Some \<lparr>name = ''test'', level = LOG_LEVEL_INFO\<rparr>"
    and tr: "\<forall>c. map_option transmitted (log_call_run (LOG_MODULE_NAME ''test'') c st')
                = map_option transmitted (log_call_run (LOG_MODULE_NAME ''test'') c ?s2)"
    by auto
  from tr have "map_option transmitted
       (log_call_run (LOG_MODULE_NAME ''test'') (Warning ''TestFunc'' 16 ''from test'' []) st')
     = map_option transmitted
       (log_call_run (LOG_MODULE_NAME ''test'') (Warning ''TestFunc'' 16 ''from test'' []) ?s2)"
    by blast
  also note before
  finally have after: "map_option transmitted
       (log_call_run (LOG_MODULE_NAME ''test'') (Warning ''TestFunc'' 16 ''from test'' []) st')
     = Some [KYEL @ ''[WRN][TestFunc:16]: '' @ KNRM @ ''from test'']" .
  from run ma mb after
  have "\<exists>st'. LOG_MODULE_SET_LEVEL (LOG_MODULE_NAME ''main'') LOG_LEVEL_OFF ?s2 = Inr st'
         \<and> modules st' ''main'' = Some \<lparr>name = ''main'', level = LOG_LEVEL_OFF\<rparr>
         \<and> modules st' ''test'' = Some \<lparr>name = ''test'', level = LOG_LEVEL_INFO\<rparr>
         \<and> map_option transmitted
              (log_call_run (LOG_MODULE_NAME ''test'') (Warning ''TestFunc'' 16 ''from test'' []) st')
            = Some [KYEL @ ''[WRN][TestFunc:16]: '' @ KNRM @ ''from test'']"
    by blast
  with r1 r2 h1 show ?thesis by blast
qed

text \<open>
  C1. The specification lets the level of the active module decide whether a message is
  emitted. The macros of \<^verbatim>\<open>logger.h\<close> compare with \<^verbatim>\<open>gLogLevel\<close> alone. Take the module
  \<^verbatim>\<open>test\<close>, registered with \<^verbatim>\<open>LOG_LEVEL_DEBUG\<close>, and the global level
  \<^verbatim>\<open>LOG_LEVEL_WARNING\<close>. After \<^verbatim>\<open>LOG_MODULE_SET_LEVEL(LOG_MODULE_NAME(test), LOG_LEVEL_OFF)\<close>
  the level of the module is \<^verbatim>\<open>LOG_LEVEL_OFF\<close>, above every severity, and a \<^verbatim>\<open>LOG_WARNING\<close>
  in a unit that declares \<^verbatim>\<open>test\<close> as its module is still sent.
\<close>

theorem C1_disabled_module_still_emits:
  "LOG_MODULE_SET_LEVEL (LOG_MODULE_NAME ''test'') LOG_LEVEL_OFF
     \<lparr>gLogLevel = LOG_LEVEL_WARNING,
      modules = [''test'' \<mapsto> \<lparr>name = ''test'', level = LOG_LEVEL_DEBUG\<rparr>],
      uart = []\<rparr>
     = Inr \<lparr>gLogLevel = LOG_LEVEL_WARNING,
          modules = [''test'' \<mapsto> \<lparr>name = ''test'', level = LOG_LEVEL_OFF\<rparr>],
          uart = []\<rparr>
   \<and> LOG_LEVEL_WARNING < LOG_LEVEL_OFF
   \<and> map_option transmitted
        (log_call_run (LOG_MODULE_DECLARE ''test'')
           (Warning ''TestFunc'' 16 ''Warning from test module'' [])
           \<lparr>gLogLevel = LOG_LEVEL_WARNING,
            modules = [''test'' \<mapsto> \<lparr>name = ''test'', level = LOG_LEVEL_OFF\<rparr>],
            uart = []\<rparr>)
       = Some [KYEL @ ''[WRN][TestFunc:16]: '' @ KNRM @ ''Warning from test module'']"
proof -
  have set: "LOG_MODULE_SET_LEVEL (LOG_MODULE_NAME ''test'') LOG_LEVEL_OFF
     \<lparr>gLogLevel = LOG_LEVEL_WARNING,
      modules = [''test'' \<mapsto> \<lparr>name = ''test'', level = LOG_LEVEL_DEBUG\<rparr>],
      uart = []\<rparr>
     = Inr \<lparr>gLogLevel = LOG_LEVEL_WARNING,
          modules = [''test'' \<mapsto> \<lparr>name = ''test'', level = LOG_LEVEL_OFF\<rparr>],
          uart = []\<rparr>"
    by (simp add: LOG_MODULE_SET_LEVEL_def LOG_MODULE_NAME_def)
  have lt: "LOG_LEVEL_WARNING < LOG_LEVEL_OFF"
    by (simp add: log_level_defs)
  have st: "\<lparr>gLogLevel = LOG_LEVEL_WARNING,
            modules = [''test'' \<mapsto> \<lparr>name = ''test'', level = LOG_LEVEL_OFF\<rparr>],
            uart = []\<rparr>
      = \<lparr>gLogLevel = LOG_LEVEL_WARNING, modules = Map.empty, uart = []\<rparr>
          \<lparr>modules := [''test'' \<mapsto> \<lparr>name = ''test'', level = LOG_LEVEL_OFF\<rparr>]\<rparr>"
    by simp
  have run: "map_option transmitted
        (log_call_run (LOG_MODULE_DECLARE ''test'')
           (Warning ''TestFunc'' 16 ''Warning from test module'' [])
           \<lparr>gLogLevel = LOG_LEVEL_WARNING,
            modules = [''test'' \<mapsto> \<lparr>name = ''test'', level = LOG_LEVEL_OFF\<rparr>],
            uart = []\<rparr>)
       = Some [KYEL @ ''[WRN][TestFunc:16]: '' @ KNRM @ ''Warning from test module'']"
    unfolding st
    by (simp only: log_call_run_modules option.map_comp comp_def transmitted_modules) code_simp
  from set lt run show ?thesis by blast
qed

end
